theory Spec2Isabelle
  imports Complex_Main "HOL-Library.Char_ord" "HOL-Library.List_Lexorder"
begin

section \<open>Values, dictionaries and errors\<close>

text \<open>
  The hyperparameter search of \<^verbatim>\<open>main.py\<close> works on Python values of four kinds:
  strings, integers, floats and booleans. Floats are read as the real numbers their decimal
  literals denote; the program only compares them with bounds, looks them up and negates
  them. A keyword dictionary (\<^verbatim>\<open>**params\<close>) is a partial map from names to values.
\<close>

datatype pyval = VStr string | VInt int | VFloat real | VBool bool

type_synonym params = "string \<rightharpoonup> pyval"

datatype error =
    KeyError
  | TypeError
  | AttributeError
  | AssertionError
  | ValueError
  | IndexError
  | CollaboratorError string

text \<open>
  \<^verbatim>\<open>FixedParameters\<close> is declared outside \<^verbatim>\<open>main.py\<close>; the trial reads its attributes
  \<^verbatim>\<open>duplicates\<close>, \<^verbatim>\<open>neighbor_sampler\<close> and \<^verbatim>\<open>pred\<close> and merges all of them
  (\<^verbatim>\<open>vars(fixed_params)\<close>) into the logged hyperparameters.
\<close>

record fixed_params =
  duplicates :: string
  neighbor_sampler :: string
  pred :: pyval
  other_attrs :: params

definition vars_of :: "fixed_params \<Rightarrow> params" where
  "vars_of fp = (other_attrs fp)(''duplicates'' \<mapsto> VStr (duplicates fp),
      ''neighbor_sampler'' \<mapsto> VStr (neighbor_sampler fp), ''pred'' \<mapsto> pred fp)"

section \<open>Derived-parameter expansion (train, lines 84-106)\<close>

text \<open>\<^verbatim>\<open>params[k]\<close>: a missing key raises \<^verbatim>\<open>KeyError\<close>.\<close>

definition getitem :: "params \<Rightarrow> string \<Rightarrow> error + pyval" where
  "getitem p k = (case p k of None \<Rightarrow> Inl KeyError | Some v \<Rightarrow> Inr v)"

text \<open>
  \<^verbatim>\<open>table[v]\<close> for a lookup table whose keys are strings: a value that is not one of the
  keys raises \<^verbatim>\<open>KeyError\<close>.\<close>

definition table_lookup :: "(string \<times> pyval) list \<Rightarrow> pyval \<Rightarrow> error + pyval" where
  "table_lookup tbl v =
     (case v of
        VStr s \<Rightarrow> (case map_of tbl s of None \<Rightarrow> Inl KeyError | Some r \<Rightarrow> Inr r)
      | _ \<Rightarrow> Inl KeyError)"

definition out_dim :: "(string \<times> pyval) list" where
  "out_dim = [(''Very Small'', VInt 32), (''Small'', VInt 96), (''Medium'', VInt 128),
              (''Large'', VInt 192), (''Very Large'', VInt 256)]"

definition hidden_dim :: "(string \<times> pyval) list" where
  "hidden_dim = [(''Very Small'', VInt 64), (''Small'', VInt 192), (''Medium'', VInt 256),
                 (''Large'', VInt 384), (''Very Large'', VInt 512)]"

definition use_popularity :: "(string \<times> pyval) list" where
  "use_popularity = [(''No'', VBool False), (''Small'', VBool True),
                     (''Medium'', VBool True), (''Large'', VBool True)]"

definition weight_popularity :: "(string \<times> pyval) list" where
  "weight_popularity = [(''No'', VInt 0), (''Small'', VFloat (1 / 100)),
                        (''Medium'', VFloat (5 / 100)), (''Large'', VFloat (1 / 10))]"

definition days_popularity :: "(string \<times> pyval) list" where
  "days_popularity = [(''No'', VInt 0), (''Small'', VInt 7),
                      (''Medium'', VInt 7), (''Large'', VInt 7)]"

text \<open>\<^verbatim>\<open>s.endswith(suf)\<close> on strings.\<close>

definition endswith :: "string \<Rightarrow> string \<Rightarrow> bool" where
  "endswith s suf = (length suf \<le> length s \<and> drop (length s - length suf) s = suf)"

text \<open>
  \<^verbatim>\<open>params['aggregator_type'] += '_edge'\<close>: reads the entry (\<^verbatim>\<open>KeyError\<close> when absent),
  concatenates (\<^verbatim>\<open>TypeError\<close> unless it is a string) and stores the result.\<close>

definition add_edge_suffix :: "params \<Rightarrow> error + params" where
  "add_edge_suffix p =
     (case getitem p ''aggregator_type'' of
        Inl e \<Rightarrow> Inl e
      | Inr (VStr a) \<Rightarrow> Inr (p(''aggregator_type'' \<mapsto> VStr (a @ ''_edge'')))
      | Inr _ \<Rightarrow> Inl TypeError)"

text \<open>
  Lines 86-100 of \<^verbatim>\<open>train\<close>: the two size tables, the three popularity tables and the
  edge suffix, in the order of the source. Each table lookup first reads the raw entry.\<close>

definition derive :: "params \<Rightarrow> string \<Rightarrow> (string \<times> pyval) list \<Rightarrow> string \<Rightarrow> error + params" where
  "derive p target tbl source =
     (case getitem p source of
        Inl e \<Rightarrow> Inl e
      | Inr v \<Rightarrow> (case table_lookup tbl v of
                    Inl e \<Rightarrow> Inl e
                  | Inr r \<Rightarrow> Inr (p(target \<mapsto> r))))"

definition expand_params :: "fixed_params \<Rightarrow> params \<Rightarrow> error + params" where
  "expand_params fp p0 =
     (case derive p0 ''out_dim'' out_dim ''embed_dim'' of Inl e \<Rightarrow> Inl e | Inr p1 \<Rightarrow>
      case derive p1 ''hidden_dim'' hidden_dim ''embed_dim'' of Inl e \<Rightarrow> Inl e | Inr p2 \<Rightarrow>
      case derive p2 ''use_popularity'' use_popularity ''popularity_importance'' of
        Inl e \<Rightarrow> Inl e | Inr p3 \<Rightarrow>
      case derive p3 ''weight_popularity'' weight_popularity ''popularity_importance'' of
        Inl e \<Rightarrow> Inl e | Inr p4 \<Rightarrow>
      case derive p4 ''days_popularity'' days_popularity ''popularity_importance'' of
        Inl e \<Rightarrow> Inl e | Inr p5 \<Rightarrow>
      if duplicates fp = ''count_occurrence'' then add_edge_suffix p5 else Inr p5)"

text \<open>
  Lines 103-106: the consistency assertions. Reading a missing entry raises \<^verbatim>\<open>KeyError\<close>,
  \<^verbatim>\<open>.endswith\<close> on a value that is not a string raises \<^verbatim>\<open>AttributeError\<close>, a failed
  \<^verbatim>\<open>assert\<close> raises \<^verbatim>\<open>AssertionError\<close>. The dictionary is not changed.\<close>

definition check_aggregator :: "fixed_params \<Rightarrow> params \<Rightarrow> error + unit" where
  "check_aggregator fp p =
     (case getitem p ''aggregator_type'' of
        Inl e \<Rightarrow> Inl e
      | Inr (VStr a) \<Rightarrow>
          (if duplicates fp = ''count_occurrence''
           then (if endswith a ''edge'' then Inr () else Inl AssertionError)
           else (if \<not> endswith a ''edge'' then Inr () else Inl AssertionError))
      | Inr _ \<Rightarrow> Inl AttributeError)"

text \<open>
  The raw entries that the expansion reads, the entries that it writes, and what it means for
  two runs to end alike on a set of entries: with the same error, or with dictionaries that
  agree on these entries.\<close>

definition agree_on :: "string set \<Rightarrow> params \<Rightarrow> params \<Rightarrow> bool" where
  "agree_on K p p' = (\<forall>k \<in> K. p k = p' k)"

definition expansion_inputs :: "string set" where
  "expansion_inputs = {''embed_dim'', ''popularity_importance'', ''aggregator_type''}"

definition expansion_outputs :: "string set" where
  "expansion_outputs = {''out_dim'', ''hidden_dim'', ''use_popularity'', ''weight_popularity'',
                        ''days_popularity'', ''aggregator_type''}"

definition same_outcome :: "string set \<Rightarrow> error + params \<Rightarrow> error + params \<Rightarrow> bool" where
  "same_outcome K r r' =
     (case r of
        Inl e \<Rightarrow> r' = Inl e
      | Inr q \<Rightarrow> (case r' of Inl e' \<Rightarrow> False | Inr q' \<Rightarrow> agree_on K q q'))"

section \<open>The trial after the checks (train, lines 108-447)\<close>

text \<open>
  Graph construction, splitting, the loaders, the network and the training run are
  collaborators declared outside \<^verbatim>\<open>main.py\<close>. The trial is modelled up to the arguments
  it hands to each of them, recorded in call order; the arguments that come from the
  hyperparameter dictionary are kept, the opaque handles (graphs, id lists, loaders) are not.
\<close>

datatype call =
    CreateGraph
  | AssignGraphFeatures params
      \<comment> \<open>\<^verbatim>\<open>**params\<close>\<close>
  | TrainValidSplit pyval pyval
      \<comment> \<open>\<^verbatim>\<open>clicks_sample\<close>, \<^verbatim>\<open>purchases_sample\<close>\<close>
  | GenerateDataloaders pyval pyval pyval
      \<comment> \<open>\<^verbatim>\<open>embedding_layer\<close>, \<^verbatim>\<open>n_layers\<close>, \<^verbatim>\<open>neg_sample_size\<close>\<close>
  | CountBatches
      \<comment> \<open>lines 174-189: batch counts from the collaborators' results and the batch sizes\<close>
  | ConvModel pyval pyval pyval pyval pyval pyval pyval pyval pyval
      \<comment> \<open>\<^verbatim>\<open>n_layers\<close>, \<^verbatim>\<open>out\<close> and \<^verbatim>\<open>hidden\<close> of \<^verbatim>\<open>dim_dict\<close>, \<^verbatim>\<open>norm\<close>, \<^verbatim>\<open>dropout\<close>,
          \<^verbatim>\<open>aggregator_type\<close>, \<^verbatim>\<open>fixed_params.pred\<close>, \<^verbatim>\<open>aggregator_hetero\<close>,
          \<^verbatim>\<open>embedding_layer\<close>\<close>
  | ModelToDevice
  | RunTraining params
      \<comment> \<open>lines 216-445: logging, training, metrics, exploration, with the dictionary
          as it stands after line 213\<close>

text \<open>
  What the collaborators do in one trial: whether a call raises, whether a GPU is present
  (the global \<^verbatim>\<open>cuda\<close>), and the test-set recall that the last metric computation yields.
\<close>

record collaborators =
  raises :: "call \<Rightarrow> error option"
  cuda :: bool
  test_recall :: "params \<Rightarrow> real"

text \<open>A computation carries the calls made so far and ends in an error or a value.\<close>

type_synonym 'a exec = "call list \<Rightarrow> call list \<times> (error + 'a)"

definition ret :: "'a \<Rightarrow> 'a exec" where
  "ret v tr = (tr, Inr v)"

definition and_then :: "'a exec \<Rightarrow> ('a \<Rightarrow> 'b exec) \<Rightarrow> 'b exec" where
  "and_then m f tr = (case m tr of (tr', Inl e) \<Rightarrow> (tr', Inl e) | (tr', Inr v) \<Rightarrow> f v tr')"

definition invoke :: "collaborators \<Rightarrow> call \<Rightarrow> unit exec" where
  "invoke co c tr = (case raises co c of None \<Rightarrow> (tr @ [c], Inr ()) | Some e \<Rightarrow> (tr @ [c], Inl e))"

definition read :: "params \<Rightarrow> string \<Rightarrow> pyval exec" where
  "read p k tr = (tr, getitem p k)"

text \<open>Lines 108-189: the graph, the split, the loaders and the batch counts.\<close>

definition build_loaders :: "collaborators \<Rightarrow> params \<Rightarrow> (pyval \<times> pyval) exec" where
  "build_loaders co p =
     and_then (invoke co CreateGraph) (\<lambda>_.
     and_then (invoke co (AssignGraphFeatures p)) (\<lambda>_.
     and_then (read p ''out_dim'') (\<lambda>out.
     and_then (read p ''hidden_dim'') (\<lambda>hidden.
     and_then (read p ''clicks_sample'') (\<lambda>clicks.
     and_then (read p ''purchases_sample'') (\<lambda>purchases.
     and_then (invoke co (TrainValidSplit clicks purchases)) (\<lambda>_.
     and_then (read p ''embedding_layer'') (\<lambda>emb.
     and_then (read p ''n_layers'') (\<lambda>layers.
     and_then (read p ''neg_sample_size'') (\<lambda>neg.
     and_then (invoke co (GenerateDataloaders emb layers neg)) (\<lambda>_.
     and_then (invoke co CountBatches) (\<lambda>_.
     ret (out, hidden)))))))))))))"

text \<open>Lines 191-192: the override of \<^verbatim>\<open>n_layers\<close> under the partial neighbour sampler.\<close>

definition override_n_layers :: "fixed_params \<Rightarrow> params \<Rightarrow> params" where
  "override_n_layers fp p =
     (if neighbor_sampler fp = ''partial'' then p(''n_layers'' \<mapsto> VInt 3) else p)"

text \<open>Lines 194-205: the network.\<close>

definition build_model :: "collaborators \<Rightarrow> fixed_params \<Rightarrow> params \<Rightarrow> pyval \<times> pyval \<Rightarrow> unit exec" where
  "build_model co fp p dims =
     and_then (read p ''n_layers'') (\<lambda>layers.
     and_then (read p ''norm'') (\<lambda>norm.
     and_then (read p ''dropout'') (\<lambda>dropout.
     and_then (read p ''aggregator_type'') (\<lambda>agg.
     and_then (read p ''aggregator_hetero'') (\<lambda>hetero.
     and_then (read p ''embedding_layer'') (\<lambda>emb.
     and_then (invoke co (ConvModel layers (fst dims) (snd dims) norm dropout agg (pred fp)
                hetero emb)) (\<lambda>_.
     if cuda co then invoke co ModelToDevice else ret ())))))))"

text \<open>
  Lines 207-213: \<^verbatim>\<open>hp_sentence\<close> is the dictionary \<^verbatim>\<open>params\<close> itself, so the two updates
  change \<^verbatim>\<open>params\<close>.\<close>

definition merge_fixed :: "collaborators \<Rightarrow> fixed_params \<Rightarrow> params \<Rightarrow> params" where
  "merge_fixed co fp p = (p ++ vars_of fp)(''cuda'' \<mapsto> VBool (cuda co))"

definition build_and_run :: "collaborators \<Rightarrow> fixed_params \<Rightarrow> params \<Rightarrow> real exec" where
  "build_and_run co fp p =
     and_then (build_loaders co p) (\<lambda>dims.
     and_then (build_model co fp (override_n_layers fp p) dims) (\<lambda>_.
     and_then (invoke co (RunTraining (merge_fixed co fp (override_n_layers fp p)))) (\<lambda>_.
     ret (test_recall co (merge_fixed co fp (override_n_layers fp p))))))"

text \<open>
  \<^verbatim>\<open>train\<close>: expansion, the assertions, then the collaborators. It returns the calls
  made and either the error raised or the test-set recall.\<close>

definition train :: "collaborators \<Rightarrow> fixed_params \<Rightarrow> params \<Rightarrow> call list \<times> (error + real)" where
  "train co fp params =
     (case expand_params fp params of
        Inl e \<Rightarrow> ([], Inl e)
      | Inr p \<Rightarrow>
          (case check_aggregator fp p of
             Inl e \<Rightarrow> ([], Inl e)
           | Inr _ \<Rightarrow> build_and_run co fp p []))"


section \<open>The search space (SearchableHyperparameters)\<close>

datatype dimension =
    Real real real string string
      \<comment> \<open>\<^verbatim>\<open>low\<close>, \<^verbatim>\<open>high\<close>, \<^verbatim>\<open>prior\<close>, \<^verbatim>\<open>name\<close>\<close>
  | Integer int int string
      \<comment> \<open>\<^verbatim>\<open>low\<close>, \<^verbatim>\<open>high\<close>, \<^verbatim>\<open>name\<close>\<close>
  | Categorical "pyval list" string
      \<comment> \<open>\<^verbatim>\<open>categories\<close>, \<^verbatim>\<open>name\<close>\<close>

fun dim_name :: "dimension \<Rightarrow> string" where
  "dim_name (Real lo hi prior n) = n"
| "dim_name (Integer lo hi n) = n"
| "dim_name (Categorical cs n) = n"

text \<open>The attributes that \<^verbatim>\<open>__init__\<close> assigns before it lists them, in source order.\<close>

definition instance_attrs :: "(string \<times> dimension) list" where
  "instance_attrs =
     [(''aggregator_hetero'',
         Categorical [VStr ''mean'', VStr ''sum'', VStr ''max''] ''aggregator_hetero''),
      (''aggregator_type'',
         Categorical [VStr ''mean'', VStr ''mean_nn'', VStr ''pool_nn''] ''aggregator_type''),
      (''clicks_sample'',
         Categorical [VFloat (2 / 10), VFloat (3 / 10), VFloat (4 / 10)] ''clicks_sample''),
      (''delta'', Real (15 / 100) (35 / 100) ''log-uniform'' ''delta''),
      (''dropout'', Real 0 (8 / 10) ''uniform'' ''dropout''),
      (''embed_dim'',
         Categorical [VStr ''Very Small'', VStr ''Small'', VStr ''Medium'', VStr ''Large'',
                      VStr ''Very Large''] ''embed_dim''),
      (''embedding_layer'', Categorical [VBool True, VBool False] ''embedding_layer''),
      (''lr'', Real (1 / 10000) (1 / 100) ''log-uniform'' ''lr''),
      (''n_layers'', Integer 3 5 ''n_layers''),
      (''neg_sample_size'', Integer 700 3000 ''neg_sample_size''),
      (''norm'', Categorical [VBool True, VBool False] ''norm''),
      (''popularity_importance'',
         Categorical [VStr ''No'', VStr ''Small'', VStr ''Medium'', VStr ''Large'']
           ''popularity_importance''),
      (''purchases_sample'',
         Categorical [VFloat (4 / 10), VFloat (5 / 10), VFloat (6 / 10)] ''purchases_sample''),
      (''use_recency'', Categorical [VBool True, VBool False] ''use_recency'')]"

text \<open>
  The names that \<^verbatim>\<open>dir\<close> lists for an instance of a plain Python 3 class besides its own
  attributes; all of them carry a double underscore.\<close>

definition object_attrs :: "string list" where
  "object_attrs =
     [''__class__'', ''__delattr__'', ''__dict__'', ''__dir__'', ''__doc__'', ''__eq__'',
      ''__format__'', ''__ge__'', ''__getattribute__'', ''__gt__'', ''__hash__'', ''__init__'',
      ''__init_subclass__'', ''__le__'', ''__lt__'', ''__module__'', ''__ne__'', ''__new__'',
      ''__reduce__'', ''__reduce_ex__'', ''__repr__'', ''__setattr__'', ''__sizeof__'',
      ''__str__'', ''__subclasshook__'', ''__weakref__'']"

text \<open>\<^verbatim>\<open>sub in s\<close> on strings.\<close>

fun contains :: "string \<Rightarrow> string \<Rightarrow> bool" where
  "contains sub [] = (sub = [])"
| "contains sub (c # cs) = (take (length sub) (c # cs) = sub \<or> contains sub cs)"

text \<open>\<^verbatim>\<open>dir(self)\<close>: all attribute names, sorted as strings.\<close>

definition dir_self :: "string list" where
  "dir_self = sort (map fst instance_attrs @ object_attrs)"

text \<open>
  \<^verbatim>\<open>[self.__getattribute__(attr) for attr in dir(self) if '__' not in attr]\<close>\<close>

definition dimensions :: "dimension list" where
  "dimensions =
     List.map_filter (\<lambda>attr. if contains ''__'' attr then None else map_of instance_attrs attr)
       dir_self"

definition default_parameters :: "pyval list" where
  "default_parameters =
     [VStr ''sum'', VStr ''mean_nn'', VFloat (3 / 10), VFloat (266 / 1000), VFloat (5 / 10),
      VStr ''Medium'', VBool False, VFloat (565 / 100000), VInt 3, VInt 2500, VBool True,
      VStr ''No'', VFloat (5 / 10), VBool True]"

text \<open>
  Membership of a value in a dimension: inclusive bounds for the numeric kinds, one of the
  listed categories for the categorical kind.\<close>

fun in_dimension :: "dimension \<Rightarrow> pyval \<Rightarrow> bool" where
  "in_dimension (Real lo hi prior n) (VFloat x) = (lo \<le> x \<and> x \<le> hi)"
| "in_dimension (Integer lo hi n) (VInt i) = (lo \<le> i \<and> i \<le> hi)"
| "in_dimension (Categorical cs n) v = (v \<in> set cs)"
| "in_dimension d v = False"

text \<open>A value lies in the declared domain of a name: in a dimension of that name.\<close>

definition in_declared_domain :: "string \<Rightarrow> pyval \<Rightarrow> bool" where
  "in_declared_domain name v = list_ex (\<lambda>d. dim_name d = name \<and> in_dimension d v) dimensions"

section \<open>The fitness wrapper\<close>

text \<open>
  The decorator \<^verbatim>\<open>use_named_args\<close> turns the optimizer's list into keyword arguments,
  one per dimension name, and refuses a list of another length.\<close>

definition use_named_args :: "dimension list \<Rightarrow> pyval list \<Rightarrow> error + params" where
  "use_named_args dims x =
     (if length x \<noteq> length dims then Inl ValueError
      else Inr (map_of (rev (zip (map dim_name dims) x))))"

text \<open>
  \<^verbatim>\<open>fitness\<close>: the global \<^verbatim>\<open>fitness_params\<close> is \<^verbatim>\<open>None\<close> until \<^verbatim>\<open>main\<close> sets it
  (unpacking \<^verbatim>\<open>None\<close> raises \<^verbatim>\<open>TypeError\<close>); of its entries the modelled part of the
  trial reads \<^verbatim>\<open>fixed_params\<close>.\<close>

definition fitness :: "collaborators \<Rightarrow> fixed_params option \<Rightarrow> pyval list \<Rightarrow> call list \<times> (error + real)" where
  "fitness co fitness_params x =
     (case use_named_args dimensions x of
        Inl e \<Rightarrow> ([], Inl e)
      | Inr params \<Rightarrow>
          (case fitness_params of
             None \<Rightarrow> ([], Inl TypeError)
           | Some fp \<Rightarrow>
               (case train co fp params of
                  (tr, Inl e) \<Rightarrow> (tr, Inl e)
                | (tr, Inr recall) \<Rightarrow> (tr, Inr (- recall)))))"

section \<open>The optimization loop and the entry point\<close>

text \<open>
  Modelled from the spec: the sequential optimization loop (\<^verbatim>\<open>gp_minimize\<close>) and the
  checkpoint loader (\<^verbatim>\<open>load\<close>, \<^verbatim>\<open>get_last_checkpoint\<close>) are imported by \<^verbatim>\<open>main.py\<close>,
  which holds only their call sites. The loop follows section 4.4 and section 6 of the
  specification:
  \<^item> points supplied without objective values are evaluated first, in order (the seeded
    first trial of a fresh start);
  \<^item> points supplied with their objective values are recorded as they are and never
    evaluated again (the loaded history of a resume); an empty history is a resume error;
  \<^item> the warm-up count of the caller is taken on top of the supplied points: a proposal is
    a random sample while fewer observations than that are recorded, and guided by the
    acquisition function afterwards;
  \<^item> the trial budget is a number of evaluations per invocation, fresh or resumed;
  \<^item> an error in a trial ends the whole search.
  The surrogate, the acquisition function and the random sampler stay abstract. The
  checkpoint callback, which writes the records after every trial, is left out.
\<close>

text \<open>
  Modelled from the spec: a trial record (section 3) with the way its vector was chosen;
  its ordinal index is its position in the list of records.\<close>

datatype origin = Loaded | Seeded | Warmup | Guided

record trial =
  origin :: origin
  vector :: "pyval list"
  objective :: real

text \<open>
  Modelled from the spec: what the loop brings of its own, namely the warm-up count it uses
  when the caller gives none, the random sampler and the acquisition-guided proposal
  (section 4.4, PROPOSE), each applied to the observations recorded so far.\<close>

record optimizer =
  default_initial_points :: nat
  sample_random :: "trial list \<Rightarrow> pyval list"
  acquire :: "trial list \<Rightarrow> pyval list"

text \<open>
  The keyword arguments of the two calls in \<^verbatim>\<open>main\<close>: \<^verbatim>\<open>x0\<close> is one vector on a fresh
  start and a list of vectors on a resume; \<^verbatim>\<open>n_initial_points\<close>, \<^verbatim>\<open>y0\<close> and
  \<^verbatim>\<open>n_jobs\<close> are not always given.\<close>

datatype x0_arg = Point "pyval list" | Points "pyval list list"

record gp_args =
  n_calls :: nat
  n_initial_points :: "int option"
  acq_func :: string
  x0 :: x0_arg
  y0 :: "real list option"
  random_state :: int
  n_jobs :: "int option"

text \<open>
  Modelled from the spec: the points supplied without objective values become the first
  trials, evaluated in order (section 4.4, fresh start).\<close>

fun evaluate_seeds :: "(pyval list \<Rightarrow> error + real) \<Rightarrow> pyval list list \<Rightarrow> trial list \<Rightarrow> error + trial list" where
  "evaluate_seeds func [] hist = Inr hist"
| "evaluate_seeds func (x # xs) hist =
     (case func x of
        Inl e \<Rightarrow> Inl e
      | Inr y \<Rightarrow> evaluate_seeds func xs (hist @ [\<lparr>origin = Seeded, vector = x, objective = y\<rparr>]))"

text \<open>
  Modelled from the spec: a proposal is a random warm-up sample while fewer observations
  than the warm-up threshold are recorded, and acquisition-guided afterwards (section 4.4).\<close>

definition propose :: "optimizer \<Rightarrow> int \<Rightarrow> trial list \<Rightarrow> origin \<times> pyval list" where
  "propose opt warm hist =
     (if int (length hist) < warm then (Warmup, sample_random opt hist)
      else (Guided, acquire opt hist))"

text \<open>
  Modelled from the spec: PROPOSE, EVALUATE, UPDATE, repeated for the given number of
  trials; an error of the evaluation ends the search (section 4.4).\<close>

fun search :: "optimizer \<Rightarrow> (pyval list \<Rightarrow> error + real) \<Rightarrow> int \<Rightarrow> nat \<Rightarrow> trial list \<Rightarrow> error + trial list" where
  "search opt func warm 0 hist = Inr hist"
| "search opt func warm (Suc n) hist =
     (case func (snd (propose opt warm hist)) of
        Inl e \<Rightarrow> Inl e
      | Inr y \<Rightarrow>
          search opt func warm n
            (hist @ [\<lparr>origin = fst (propose opt warm hist),
                      vector = snd (propose opt warm hist), objective = y\<rparr>]))"

text \<open>
  Modelled from the spec: one vector stands for a list of one; an empty list of loaded
  vectors is a resume error (section 7), raised when its first element is inspected.\<close>

definition supplied_points :: "x0_arg \<Rightarrow> error + pyval list list" where
  "supplied_points a =
     (case a of
        Point v \<Rightarrow> Inr [v]
      | Points [] \<Rightarrow> Inl IndexError
      | Points (v # vs) \<Rightarrow> Inr (v # vs))"

text \<open>
  Modelled from the spec: the observation history reconstructed from the loaded vectors and
  objective values (section 4.4, resume).\<close>

definition loaded_history :: "pyval list list \<Rightarrow> real list \<Rightarrow> trial list" where
  "loaded_history xs ys = map (\<lambda>(x, y). \<lparr>origin = Loaded, vector = x, objective = y\<rparr>) (zip xs ys)"

text \<open>
  Modelled from the spec: the loop as \<^verbatim>\<open>main\<close> calls it. The warm-up threshold is the
  warm-up count on top of the supplied points; supplied points without objective values
  are evaluated within the budget of \<^verbatim>\<open>n_calls\<close> trials, supplied points with objective
  values are recorded without evaluation (sections 4.4 and 6).\<close>

definition gp_minimize :: "optimizer \<Rightarrow> (pyval list \<Rightarrow> error + real) \<Rightarrow> gp_args \<Rightarrow> error + trial list" where
  "gp_minimize opt func args =
     (case supplied_points (x0 args) of
        Inl e \<Rightarrow> Inl e
      | Inr xs \<Rightarrow>
          (let warm = (case n_initial_points args of
                         None \<Rightarrow> int (default_initial_points opt)
                       | Some n \<Rightarrow> n) + int (length xs)
           in case y0 args of
                None \<Rightarrow>
                  (case evaluate_seeds func xs [] of
                     Inl e \<Rightarrow> Inl e
                   | Inr hist \<Rightarrow> search opt func warm (n_calls args - length xs) hist)
              | Some ys \<Rightarrow>
                  if length xs \<noteq> length ys then Inl ValueError
                  else search opt func warm (n_calls args) (loaded_history xs ys)))"


text \<open>The loaded checkpoint: the vectors evaluated so far and their objective values.\<close>

record checkpoint =
  x_iters :: "pyval list list"
  func_vals :: "real list"

text \<open>
  \<^verbatim>\<open>main\<close>, lines 576-607: the two calls of the loop. \<^verbatim>\<open>from_beginning\<close> is a counting
  flag; the fixed parameters are the ones built from the command line; the last argument is
  the outcome of \<^verbatim>\<open>load(get_last_checkpoint())\<close>.\<close>

definition main :: "collaborators \<Rightarrow> optimizer \<Rightarrow> fixed_params \<Rightarrow> int \<Rightarrow> error + checkpoint \<Rightarrow> error + trial list" where
  "main co opt fp from_beginning last_checkpoint =
     (if from_beginning \<noteq> 0
      then gp_minimize opt (\<lambda>x. snd (fitness co (Some fp) x))
             \<lparr>n_calls = 200, n_initial_points = None, acq_func = ''EI'',
              x0 = Point default_parameters, y0 = None, random_state = 46,
              n_jobs = Some (- 1)\<rparr>
      else (case last_checkpoint of
              Inl e \<Rightarrow> Inl e
            | Inr res \<Rightarrow>
                gp_minimize opt (\<lambda>x. snd (fitness co (Some fp) x))
                  \<lparr>n_calls = 200, n_initial_points = Some (- int (length (x_iters res))),
                   acq_func = ''EI'', x0 = Points (x_iters res), y0 = Some (func_vals res),
                   random_state = 46, n_jobs = None\<rparr>))"

section \<open>Concrete inputs\<close>

text \<open>
  A configuration as the command line builds it by default (\<^verbatim>\<open>--duplicates keep_all\<close>),
  one that counts duplicate edges and one with the partial neighbour sampler.\<close>

definition keep_all_fixed :: fixed_params where
  "keep_all_fixed = \<lparr>duplicates = ''keep_all'', neighbor_sampler = ''full'',
                      pred = VStr ''cos'', other_attrs = Map.empty\<rparr>"

definition count_fixed :: fixed_params where
  "count_fixed = \<lparr>duplicates = ''count_occurrence'', neighbor_sampler = ''full'',
                   pred = VStr ''cos'', other_attrs = Map.empty\<rparr>"

definition partial_fixed :: fixed_params where
  "partial_fixed = \<lparr>duplicates = ''keep_all'', neighbor_sampler = ''partial'',
                     pred = VStr ''cos'', other_attrs = Map.empty\<rparr>"

text \<open>Collaborators that never raise, on a machine without GPU, with a test recall of 0.20.\<close>

definition quiet_run :: collaborators where
  "quiet_run = \<lparr>raises = (\<lambda>c. None), cuda = False, test_recall = (\<lambda>p. 20 / 100)\<rparr>"

text \<open>Keyword arguments of a trial: the default vector, with five layers and a large size.\<close>

definition sample_raw :: params where
  "sample_raw = map_of
     [(''aggregator_hetero'', VStr ''sum''), (''aggregator_type'', VStr ''mean_nn''),
      (''clicks_sample'', VFloat (3 / 10)), (''delta'', VFloat (266 / 1000)),
      (''dropout'', VFloat (5 / 10)), (''embed_dim'', VStr ''Large''),
      (''embedding_layer'', VBool False), (''lr'', VFloat (565 / 100000)),
      (''n_layers'', VInt 5), (''neg_sample_size'', VInt 2500), (''norm'', VBool True),
      (''popularity_importance'', VStr ''No''), (''purchases_sample'', VFloat (5 / 10)),
      (''use_recency'', VBool True)]"

text \<open>The same arguments with an aggregation value that already ends with the suffix.\<close>

definition edge_raw :: params where
  "edge_raw = sample_raw(''aggregator_type'' \<mapsto> VStr ''mean_edge'')"

text \<open>An optimizer that always proposes the default vector, with ten warm-up trials.\<close>

definition constant_optimizer :: optimizer where
  "constant_optimizer = \<lparr>default_initial_points = 10,
                          sample_random = (\<lambda>h. default_parameters),
                          acquire = (\<lambda>h. default_parameters)\<rparr>"


section \<open>Facts about the expansion\<close>

lemmas tables =
  out_dim_def hidden_dim_def use_popularity_def weight_popularity_def days_popularity_def

lemma derive_Inr:
  "derive p target tbl source = Inr q \<Longrightarrow>
     \<exists>s r. p source = Some (VStr s) \<and> map_of tbl s = Some r \<and> q = p(target \<mapsto> r)"
  by (auto simp: derive_def getitem_def table_lookup_def split: option.splits pyval.splits)

lemma derive_Inl: "derive p target tbl source = Inl e \<Longrightarrow> e = KeyError"
  by (auto simp: derive_def getitem_def table_lookup_def split: option.splits pyval.splits)

lemma add_edge_suffix_Inr:
  "add_edge_suffix p = Inr q \<Longrightarrow>
     \<exists>a. p ''aggregator_type'' = Some (VStr a) \<and>
         q = p(''aggregator_type'' \<mapsto> VStr (a @ ''_edge''))"
  by (auto simp: add_edge_suffix_def getitem_def split: option.splits pyval.splits)

text \<open>A successful expansion, written out: what it read and what it stored.\<close>

lemma expand_params_Inr:
  assumes "expand_params fp p = Inr q"
  shows "\<exists>e i od hd up wp dp.
           p ''embed_dim'' = Some (VStr e) \<and> map_of out_dim e = Some od \<and>
           map_of hidden_dim e = Some hd \<and>
           p ''popularity_importance'' = Some (VStr i) \<and>
           map_of use_popularity i = Some up \<and> map_of weight_popularity i = Some wp \<and>
           map_of days_popularity i = Some dp \<and>
           (if duplicates fp = ''count_occurrence''
            then \<exists>a. p ''aggregator_type'' = Some (VStr a) \<and>
                     q = p(''out_dim'' \<mapsto> od, ''hidden_dim'' \<mapsto> hd, ''use_popularity'' \<mapsto> up,
                           ''weight_popularity'' \<mapsto> wp, ''days_popularity'' \<mapsto> dp,
                           ''aggregator_type'' \<mapsto> VStr (a @ ''_edge''))
            else q = p(''out_dim'' \<mapsto> od, ''hidden_dim'' \<mapsto> hd, ''use_popularity'' \<mapsto> up,
                       ''weight_popularity'' \<mapsto> wp, ''days_popularity'' \<mapsto> dp))"
proof -
  from assms obtain p1 p2 p3 p4 p5 where
    d1: "derive p ''out_dim'' out_dim ''embed_dim'' = Inr p1" and
    d2: "derive p1 ''hidden_dim'' hidden_dim ''embed_dim'' = Inr p2" and
    d3: "derive p2 ''use_popularity'' use_popularity ''popularity_importance'' = Inr p3" and
    d4: "derive p3 ''weight_popularity'' weight_popularity ''popularity_importance'' = Inr p4" and
    d5: "derive p4 ''days_popularity'' days_popularity ''popularity_importance'' = Inr p5" and
    fin: "(if duplicates fp = ''count_occurrence'' then add_edge_suffix p5 else Inr p5) = Inr q"
    unfolding expand_params_def by (auto split: sum.splits)
  from derive_Inr[OF d1] obtain e od where
    e: "p ''embed_dim'' = Some (VStr e)" "map_of out_dim e = Some od"
    and p1: "p1 = p(''out_dim'' \<mapsto> od)"
    by blast
  from derive_Inr[OF d2] p1 e obtain hd where
    hd: "map_of hidden_dim e = Some hd" and p2: "p2 = p1(''hidden_dim'' \<mapsto> hd)"
    by auto
  from derive_Inr[OF d3] obtain i up where
    i: "p2 ''popularity_importance'' = Some (VStr i)" "map_of use_popularity i = Some up"
    and p3: "p3 = p2(''use_popularity'' \<mapsto> up)"
    by blast
  from derive_Inr[OF d4] p3 i obtain wp where
    wp: "map_of weight_popularity i = Some wp" and p4: "p4 = p3(''weight_popularity'' \<mapsto> wp)"
    by auto
  from derive_Inr[OF d5] p4 p3 i obtain dp where
    dp: "map_of days_popularity i = Some dp" and p5: "p5 = p4(''days_popularity'' \<mapsto> dp)"
    by auto
  have pi: "p ''popularity_importance'' = Some (VStr i)"
    using i(1) p1 p2 by (simp split: if_splits)
  have p5': "p5 = p(''out_dim'' \<mapsto> od, ''hidden_dim'' \<mapsto> hd, ''use_popularity'' \<mapsto> up,
                       ''weight_popularity'' \<mapsto> wp, ''days_popularity'' \<mapsto> dp)"
    using p1 p2 p3 p4 p5 by simp
  show ?thesis
  proof (cases "duplicates fp = ''count_occurrence''")
    case True
    with fin have "add_edge_suffix p5 = Inr q" by simp
    from add_edge_suffix_Inr[OF this] obtain a where
      a: "p5 ''aggregator_type'' = Some (VStr a)"
      and q: "q = p5(''aggregator_type'' \<mapsto> VStr (a @ ''_edge''))"
      by blast
    have "p ''aggregator_type'' = Some (VStr a)" using a p5' by simp
    with True e hd pi i wp dp q p5' show ?thesis by auto
  next
    case False
    with fin have "q = p5" by simp
    with False e hd pi i wp dp p5' show ?thesis by auto
  qed
qed

lemma expand_params_Inl: "expand_params fp p = Inl e \<Longrightarrow> e = KeyError \<or> e = TypeError"
  unfolding expand_params_def
  by (auto split: sum.splits if_splits option.splits pyval.splits dest: derive_Inl
           simp: add_edge_suffix_def getitem_def)

text \<open>The expansion of the sample arguments succeeds in both duplicate modes.\<close>

lemma expand_sample_keep_all: "\<exists>q. expand_params keep_all_fixed sample_raw = Inr q"
  by (simp add: expand_params_def derive_def getitem_def table_lookup_def tables
        sample_raw_def keep_all_fixed_def)

lemma expand_sample_count: "\<exists>q. expand_params count_fixed sample_raw = Inr q"
  by (simp add: expand_params_def derive_def getitem_def table_lookup_def tables
        add_edge_suffix_def sample_raw_def count_fixed_def)

section \<open>Facts about the calls of a trial\<close>






text \<open>A whole trial on the sample arguments under the partial neighbour sampler.\<close>

lemmas trial_defs = train_def expand_params_def derive_def getitem_def table_lookup_def tables
  add_edge_suffix_def check_aggregator_def endswith_def build_and_run_def build_loaders_def
  build_model_def override_n_layers_def and_then_def invoke_def read_def ret_def


section \<open>Facts about the search space\<close>

text \<open>Listing the attributes through \<^verbatim>\<open>dir\<close> keeps the fourteen dimensions, in the order of their names.\<close>

lemma dimensions_eq: "dimensions = map snd instance_attrs"
  by code_simp

lemma dimension_names:
  "map dim_name dimensions =
     [''aggregator_hetero'', ''aggregator_type'', ''clicks_sample'', ''delta'', ''dropout'',
      ''embed_dim'', ''embedding_layer'', ''lr'', ''n_layers'', ''neg_sample_size'', ''norm'',
      ''popularity_importance'', ''purchases_sample'', ''use_recency'']"
  by (simp add: dimensions_eq instance_attrs_def)

section \<open>Facts about the aggregation value\<close>

lemma aggregator_domain:
  "in_declared_domain ''aggregator_type'' v \<longleftrightarrow>
     v = VStr ''mean'' \<or> v = VStr ''mean_nn'' \<or> v = VStr ''pool_nn''"
  by (auto simp: in_declared_domain_def dimensions_eq instance_attrs_def)

lemma endswith_append [simp]: "endswith (a @ suf) suf"
  by (simp add: endswith_def)

lemma endswith_edge_suffix [simp]: "endswith (a @ ''_edge'') ''edge''"
  by (simp add: endswith_def)

lemma derive_keeps:
  "derive p target tbl source = Inr q \<Longrightarrow> target \<noteq> k \<Longrightarrow> q k = p k"
  by (auto dest: derive_Inr)

lemma expand_params_Inl_string:
  assumes "expand_params fp p = Inl e" and "p ''aggregator_type'' = Some (VStr a)"
  shows "e = KeyError"
proof (rule ccontr)
  assume ne: "e \<noteq> KeyError"
  with assms(1) obtain p1 p2 p3 p4 p5 where
    d1: "derive p ''out_dim'' out_dim ''embed_dim'' = Inr p1" and
    d2: "derive p1 ''hidden_dim'' hidden_dim ''embed_dim'' = Inr p2" and
    d3: "derive p2 ''use_popularity'' use_popularity ''popularity_importance'' = Inr p3" and
    d4: "derive p3 ''weight_popularity'' weight_popularity ''popularity_importance'' = Inr p4" and
    d5: "derive p4 ''days_popularity'' days_popularity ''popularity_importance'' = Inr p5" and
    fin: "add_edge_suffix p5 = Inl e"
    unfolding expand_params_def
    by (auto split: sum.splits if_splits dest: derive_Inl)
  have "p5 ''aggregator_type'' = p ''aggregator_type''"
    using derive_keeps[OF d1, of "''aggregator_type''"]
      derive_keeps[OF d2, of "''aggregator_type''"]
      derive_keeps[OF d3, of "''aggregator_type''"]
      derive_keeps[OF d4, of "''aggregator_type''"]
      derive_keeps[OF d5, of "''aggregator_type''"]
    by simp
  with assms(2) fin show False
    by (simp add: add_edge_suffix_def getitem_def)
qed

lemma expand_params_count:
  assumes "expand_params fp p = Inr q" and "duplicates fp = ''count_occurrence''"
  shows "\<exists>a. p ''aggregator_type'' = Some (VStr a) \<and>
             q ''aggregator_type'' = Some (VStr (a @ ''_edge''))"
  using expand_params_Inr[OF assms(1)] assms(2) by auto

lemma expand_params_other:
  assumes "expand_params fp p = Inr q" and "duplicates fp \<noteq> ''count_occurrence''"
  shows "q ''aggregator_type'' = p ''aggregator_type''"
  using expand_params_Inr[OF assms(1)] assms(2) by auto

section \<open>Whole trials on the sample arguments\<close>

lemma expand_edge_keep_all: "\<exists>q. expand_params keep_all_fixed edge_raw = Inr q"
  by (simp add: expand_params_def derive_def getitem_def table_lookup_def tables
        edge_raw_def sample_raw_def keep_all_fixed_def)

lemma train_count_sample:
  "\<exists>q m. train quiet_run count_fixed sample_raw =
     ([CreateGraph, AssignGraphFeatures q, TrainValidSplit (VFloat (3 / 10)) (VFloat (5 / 10)),
       GenerateDataloaders (VBool False) (VInt 5) (VInt 2500), CountBatches,
       ConvModel (VInt 5) (VInt 192) (VInt 384) (VBool True) (VFloat (5 / 10))
         (VStr ''mean_nn_edge'') (VStr ''cos'') (VStr ''sum'') (VBool False),
       RunTraining m], Inr (20 / 100))"
  by (simp add: trial_defs quiet_run_def count_fixed_def sample_raw_def)

lemma train_default:
  "snd (train quiet_run keep_all_fixed
          (map_of (rev (zip (map dim_name dimensions) default_parameters)))) = Inr (20 / 100)"
  unfolding dimension_names
  by (simp add: trial_defs quiet_run_def keep_all_fixed_def default_parameters_def)

section \<open>Facts about the optimization loop\<close>

lemma propose_origin:
  "fst (propose opt w h) = (if int (length h) < w then Warmup else Guided)"
  by (simp add: propose_def)

lemma propose_vector:
  "snd (propose opt w h) = (if int (length h) < w then sample_random opt h else acquire opt h)"
  by (simp add: propose_def)

lemma search_Inr:
  assumes "search opt f w n hist = Inr ts"
  shows "\<exists>new. ts = hist @ new \<and> length new = n \<and>
           (\<forall>i<n. origin (new ! i) = fst (propose opt w (hist @ take i new)) \<and>
                  vector (new ! i) = snd (propose opt w (hist @ take i new)) \<and>
                  f (vector (new ! i)) = Inr (objective (new ! i)))"
  using assms
proof (induction n arbitrary: hist ts)
  case 0
  then show ?case by simp
next
  case (Suc n)
  from Suc.prems obtain y where
    y: "f (snd (propose opt w hist)) = Inr y" and
    rest: "search opt f w n
             (hist @ [\<lparr>origin = fst (propose opt w hist),
                       vector = snd (propose opt w hist), objective = y\<rparr>]) = Inr ts"
    by (auto split: sum.splits)
  define t where "t = \<lparr>origin = fst (propose opt w hist),
                       vector = snd (propose opt w hist), objective = y\<rparr>"
  from Suc.IH[OF rest] obtain new' where
    ts: "ts = (hist @ [t]) @ new'" and len: "length new' = n" and
    each: "\<forall>i<n. origin (new' ! i) = fst (propose opt w ((hist @ [t]) @ take i new')) \<and>
                  vector (new' ! i) = snd (propose opt w ((hist @ [t]) @ take i new')) \<and>
                  f (vector (new' ! i)) = Inr (objective (new' ! i))"
    unfolding t_def by blast
  have every: "\<forall>i<Suc n. origin ((t # new') ! i) = fst (propose opt w (hist @ take i (t # new'))) \<and>
                  vector ((t # new') ! i) = snd (propose opt w (hist @ take i (t # new'))) \<and>
                  f (vector ((t # new') ! i)) = Inr (objective ((t # new') ! i))"
  proof (intro allI impI)
    fix i assume i: "i < Suc n"
    show "origin ((t # new') ! i) = fst (propose opt w (hist @ take i (t # new'))) \<and>
                  vector ((t # new') ! i) = snd (propose opt w (hist @ take i (t # new'))) \<and>
                  f (vector ((t # new') ! i)) = Inr (objective ((t # new') ! i))"
    proof (cases i)
      case 0
      with y show ?thesis by (simp add: t_def)
    next
      case (Suc j)
      with i have "j < n" by simp
      with each have "origin (new' ! j) = fst (propose opt w ((hist @ [t]) @ take j new')) \<and>
                  vector (new' ! j) = snd (propose opt w ((hist @ [t]) @ take j new')) \<and>
                  f (vector (new' ! j)) = Inr (objective (new' ! j))"
        by blast
      with Suc show ?thesis by auto
    qed
  qed
  show ?case
  proof (intro exI conjI)
    show "ts = hist @ (t # new')" using ts by simp
    show "length (t # new') = Suc n" using len by simp
    show "\<forall>i<Suc n. origin ((t # new') ! i) = fst (propose opt w (hist @ take i (t # new'))) \<and>
                  vector ((t # new') ! i) = snd (propose opt w (hist @ take i (t # new'))) \<and>
                  f (vector ((t # new') ! i)) = Inr (objective ((t # new') ! i))"
      by (rule every)
  qed
qed

lemma search_total:
  assumes "\<And>h. \<exists>y. f (snd (propose opt w h)) = Inr y"
  shows "\<exists>ts. search opt f w n hist = Inr ts"
proof (induction n arbitrary: hist)
  case 0
  then show ?case by simp
next
  case (Suc n)
  from assms[of hist] obtain y where "f (snd (propose opt w hist)) = Inr y" by blast
  with Suc show ?case by simp
qed




lemma main_fresh:
  assumes "fb \<noteq> 0" and "main co opt fp fb ck = Inr ts"
  shows "\<exists>y. snd (fitness co (Some fp) default_parameters) = Inr y \<and>
             search opt (\<lambda>x. snd (fitness co (Some fp) x))
               (int (default_initial_points opt) + 1) 199
               [\<lparr>origin = Seeded, vector = default_parameters, objective = y\<rparr>] = Inr ts"
  using assms
  by (auto simp: main_def gp_minimize_def supplied_points_def split: sum.splits)

lemma main_fresh_failure:
  assumes "fb \<noteq> 0" and "snd (fitness co (Some fp) default_parameters) = Inl e"
  shows "main co opt fp fb ck = Inl e"
  using assms by (simp add: main_def gp_minimize_def supplied_points_def)


text \<open>The shape of a completed fresh search.\<close>

lemma main_fresh_shape:
  assumes "fb \<noteq> 0" and "main co opt fp fb ck = Inr ts"
  shows "\<exists>y new. ts = \<lparr>origin = Seeded, vector = default_parameters, objective = y\<rparr> # new \<and>
           snd (fitness co (Some fp) default_parameters) = Inr y \<and>
           length new = 199 \<and>
           (\<forall>i<199. origin (new ! i) = (if i < default_initial_points opt then Warmup else Guided) \<and>
              vector (new ! i) =
                (if i < default_initial_points opt
                 then sample_random opt (take (Suc i) ts) else acquire opt (take (Suc i) ts)))"
proof -
  from main_fresh[OF assms] obtain y where
    y: "snd (fitness co (Some fp) default_parameters) = Inr y" and
    s: "search opt (\<lambda>x. snd (fitness co (Some fp) x))
               (int (default_initial_points opt) + 1) 199
               [\<lparr>origin = Seeded, vector = default_parameters, objective = y\<rparr>] = Inr ts"
    by blast
  define seed where "seed = \<lparr>origin = Seeded, vector = default_parameters, objective = y\<rparr>"
  from search_Inr[OF s] obtain new where
    ts: "ts = [seed] @ new" and
    n: "length new = 199" and
    each: "\<forall>i<199. origin (new ! i) =
                 fst (propose opt (int (default_initial_points opt) + 1) ([seed] @ take i new)) \<and>
               vector (new ! i) =
                 snd (propose opt (int (default_initial_points opt) + 1) ([seed] @ take i new)) \<and>
               snd (fitness co (Some fp) (vector (new ! i))) = Inr (objective (new ! i))"
    unfolding seed_def by blast
  have "origin (new ! i) = (if i < default_initial_points opt then Warmup else Guided) \<and>
              vector (new ! i) =
                (if i < default_initial_points opt
                 then sample_random opt (take (Suc i) ts) else acquire opt (take (Suc i) ts))"
    if "i < 199" for i
  proof -
    from that n have l: "length ([seed] @ take i new) = Suc i" by simp
    have t: "take (Suc i) ts = [seed] @ take i new" using ts by simp
    from each that have
      "origin (new ! i) =
         fst (propose opt (int (default_initial_points opt) + 1) ([seed] @ take i new))"
      "vector (new ! i) =
         snd (propose opt (int (default_initial_points opt) + 1) ([seed] @ take i new))"
      by blast+
    then show ?thesis
      unfolding propose_origin propose_vector l t by auto
  qed
  with ts n y show ?thesis unfolding seed_def by auto
qed

text \<open>Searches with the constant optimizer run to their end.\<close>

lemma fitness_default_value:
  "snd (fitness quiet_run (Some keep_all_fixed) default_parameters) = Inr (- (20 / 100))"
proof -
  have n: "use_named_args dimensions default_parameters =
             Inr (map_of (rev (zip (map dim_name dimensions) default_parameters)))"
    by (simp add: use_named_args_def dimensions_eq instance_attrs_def default_parameters_def)
  obtain tr where t: "train quiet_run keep_all_fixed
          (map_of (rev (zip (map dim_name dimensions) default_parameters))) = (tr, Inr (20 / 100))"
    using train_default by (metis prod.collapse)
  show ?thesis by (simp add: fitness_def n t)
qed

lemma constant_search_total:
  "\<exists>ts. search constant_optimizer (\<lambda>x. snd (fitness quiet_run (Some keep_all_fixed) x)) w n hist
         = Inr ts"
proof (rule search_total)
  fix h
  have "snd (propose constant_optimizer w h) = default_parameters"
    by (simp add: propose_def constant_optimizer_def)
  with fitness_default_value
  show "\<exists>y. snd (fitness quiet_run (Some keep_all_fixed) (snd (propose constant_optimizer w h)))
          = Inr y"
    by simp
qed


lemma fresh_total:
  "\<exists>ts. main quiet_run constant_optimizer keep_all_fixed 1 (Inl IndexError) = Inr ts"
  using constant_search_total[of "int (default_initial_points constant_optimizer) + 1" 199
          "[\<lparr>origin = Seeded, vector = default_parameters, objective = - (20 / 100)\<rparr>]"]
  by (simp add: main_def gp_minimize_def supplied_points_def fitness_default_value)






section \<open>Facts about two runs of the expansion\<close>

lemma derive_agree:
  assumes "agree_on K p p'" and "source \<in> K"
  shows "same_outcome (insert target K) (derive p target tbl source) (derive p' target tbl source)"
  using assms
  by (auto simp: same_outcome_def agree_on_def derive_def getitem_def table_lookup_def
           split: option.splits pyval.splits)

lemma add_edge_suffix_agree:
  assumes "agree_on K p p'" and "''aggregator_type'' \<in> K"
  shows "same_outcome K (add_edge_suffix p) (add_edge_suffix p')"
  using assms
  by (auto simp: same_outcome_def agree_on_def add_edge_suffix_def getitem_def
           split: option.splits pyval.splits)

lemma same_outcome_bind:
  assumes "same_outcome K r r'"
    and "\<And>q q'. agree_on K q q' \<Longrightarrow> same_outcome L (f q) (f' q')"
  shows "same_outcome L (case r of Inl e \<Rightarrow> Inl e | Inr q \<Rightarrow> f q)
                        (case r' of Inl e \<Rightarrow> Inl e | Inr q \<Rightarrow> f' q)"
proof (cases r)
  case (Inl e)
  with assms(1) show ?thesis by (simp add: same_outcome_def)
next
  case (Inr q)
  with assms(1) obtain q' where r': "r' = Inr q'" and a: "agree_on K q q'"
    by (cases r') (auto simp: same_outcome_def)
  from assms(2)[OF a] Inr r' show ?thesis by simp
qed

lemma agree_on_mono: "agree_on K p p' \<Longrightarrow> L \<subseteq> K \<Longrightarrow> agree_on L p p'"
  by (auto simp: agree_on_def)

lemma expand_params_agree:
  assumes "duplicates fp = duplicates fp'" and "agree_on expansion_inputs p p'"
  shows "same_outcome expansion_outputs (expand_params fp p) (expand_params fp' p')"
  unfolding expand_params_def
proof (rule same_outcome_bind[OF derive_agree[OF assms(2)]])
  show "''embed_dim'' \<in> expansion_inputs" by (simp add: expansion_inputs_def)
  fix p1 p1' assume a1: "agree_on (insert ''out_dim'' expansion_inputs) p1 p1'"
  show "same_outcome expansion_outputs
          (case derive p1 ''hidden_dim'' hidden_dim ''embed_dim'' of Inl e \<Rightarrow> Inl e | Inr p2 \<Rightarrow>
           case derive p2 ''use_popularity'' use_popularity ''popularity_importance'' of
             Inl e \<Rightarrow> Inl e | Inr p3 \<Rightarrow>
           case derive p3 ''weight_popularity'' weight_popularity ''popularity_importance'' of
             Inl e \<Rightarrow> Inl e | Inr p4 \<Rightarrow>
           case derive p4 ''days_popularity'' days_popularity ''popularity_importance'' of
             Inl e \<Rightarrow> Inl e | Inr p5 \<Rightarrow>
           if duplicates fp = ''count_occurrence'' then add_edge_suffix p5 else Inr p5)
          (case derive p1' ''hidden_dim'' hidden_dim ''embed_dim'' of Inl e \<Rightarrow> Inl e | Inr p2 \<Rightarrow>
           case derive p2 ''use_popularity'' use_popularity ''popularity_importance'' of
             Inl e \<Rightarrow> Inl e | Inr p3 \<Rightarrow>
           case derive p3 ''weight_popularity'' weight_popularity ''popularity_importance'' of
             Inl e \<Rightarrow> Inl e | Inr p4 \<Rightarrow>
           case derive p4 ''days_popularity'' days_popularity ''popularity_importance'' of
             Inl e \<Rightarrow> Inl e | Inr p5 \<Rightarrow>
           if duplicates fp' = ''count_occurrence'' then add_edge_suffix p5 else Inr p5)"
  proof (rule same_outcome_bind[OF derive_agree[OF a1]])
    show "''embed_dim'' \<in> insert ''out_dim'' expansion_inputs" by (simp add: expansion_inputs_def)
    fix p2 p2' assume a2: "agree_on (insert ''hidden_dim'' (insert ''out_dim'' expansion_inputs)) p2 p2'"
    show "same_outcome expansion_outputs
          (case derive p2 ''use_popularity'' use_popularity ''popularity_importance'' of
             Inl e \<Rightarrow> Inl e | Inr p3 \<Rightarrow>
           case derive p3 ''weight_popularity'' weight_popularity ''popularity_importance'' of
             Inl e \<Rightarrow> Inl e | Inr p4 \<Rightarrow>
           case derive p4 ''days_popularity'' days_popularity ''popularity_importance'' of
             Inl e \<Rightarrow> Inl e | Inr p5 \<Rightarrow>
           if duplicates fp = ''count_occurrence'' then add_edge_suffix p5 else Inr p5)
          (case derive p2' ''use_popularity'' use_popularity ''popularity_importance'' of
             Inl e \<Rightarrow> Inl e | Inr p3 \<Rightarrow>
           case derive p3 ''weight_popularity'' weight_popularity ''popularity_importance'' of
             Inl e \<Rightarrow> Inl e | Inr p4 \<Rightarrow>
           case derive p4 ''days_popularity'' days_popularity ''popularity_importance'' of
             Inl e \<Rightarrow> Inl e | Inr p5 \<Rightarrow>
           if duplicates fp' = ''count_occurrence'' then add_edge_suffix p5 else Inr p5)"
    proof (rule same_outcome_bind[OF derive_agree[OF a2]])
      show "''popularity_importance'' \<in> insert ''hidden_dim'' (insert ''out_dim'' expansion_inputs)"
        by (simp add: expansion_inputs_def)
      fix p3 p3' assume a3: "agree_on (insert ''use_popularity''
              (insert ''hidden_dim'' (insert ''out_dim'' expansion_inputs))) p3 p3'"
      show "same_outcome expansion_outputs
          (case derive p3 ''weight_popularity'' weight_popularity ''popularity_importance'' of
             Inl e \<Rightarrow> Inl e | Inr p4 \<Rightarrow>
           case derive p4 ''days_popularity'' days_popularity ''popularity_importance'' of
             Inl e \<Rightarrow> Inl e | Inr p5 \<Rightarrow>
           if duplicates fp = ''count_occurrence'' then add_edge_suffix p5 else Inr p5)
          (case derive p3' ''weight_popularity'' weight_popularity ''popularity_importance'' of
             Inl e \<Rightarrow> Inl e | Inr p4 \<Rightarrow>
           case derive p4 ''days_popularity'' days_popularity ''popularity_importance'' of
             Inl e \<Rightarrow> Inl e | Inr p5 \<Rightarrow>
           if duplicates fp' = ''count_occurrence'' then add_edge_suffix p5 else Inr p5)"
      proof (rule same_outcome_bind[OF derive_agree[OF a3]])
        show "''popularity_importance'' \<in> insert ''use_popularity''
              (insert ''hidden_dim'' (insert ''out_dim'' expansion_inputs))"
          by (simp add: expansion_inputs_def)
        fix p4 p4' assume a4: "agree_on (insert ''weight_popularity'' (insert ''use_popularity''
              (insert ''hidden_dim'' (insert ''out_dim'' expansion_inputs)))) p4 p4'"
        show "same_outcome expansion_outputs
          (case derive p4 ''days_popularity'' days_popularity ''popularity_importance'' of
             Inl e \<Rightarrow> Inl e | Inr p5 \<Rightarrow>
           if duplicates fp = ''count_occurrence'' then add_edge_suffix p5 else Inr p5)
          (case derive p4' ''days_popularity'' days_popularity ''popularity_importance'' of
             Inl e \<Rightarrow> Inl e | Inr p5 \<Rightarrow>
           if duplicates fp' = ''count_occurrence'' then add_edge_suffix p5 else Inr p5)"
        proof (rule same_outcome_bind[OF derive_agree[OF a4]])
          show "''popularity_importance'' \<in> insert ''weight_popularity'' (insert ''use_popularity''
              (insert ''hidden_dim'' (insert ''out_dim'' expansion_inputs)))"
            by (simp add: expansion_inputs_def)
          fix p5 p5' assume a5: "agree_on (insert ''days_popularity''
              (insert ''weight_popularity'' (insert ''use_popularity''
              (insert ''hidden_dim'' (insert ''out_dim'' expansion_inputs))))) p5 p5'"
          have sub: "expansion_outputs \<subseteq> insert ''days_popularity''
              (insert ''weight_popularity'' (insert ''use_popularity''
              (insert ''hidden_dim'' (insert ''out_dim'' expansion_inputs))))"
            by (simp add: expansion_outputs_def expansion_inputs_def)
          show "same_outcome expansion_outputs
             (if duplicates fp = ''count_occurrence'' then add_edge_suffix p5 else Inr p5)
             (if duplicates fp' = ''count_occurrence'' then add_edge_suffix p5' else Inr p5')"
          proof (cases "duplicates fp = ''count_occurrence''")
            case True
            have "same_outcome expansion_outputs (add_edge_suffix p5) (add_edge_suffix p5')"
              by (rule add_edge_suffix_agree[OF agree_on_mono[OF a5 sub]])
                 (simp add: expansion_outputs_def)
            with True assms(1) show ?thesis by simp
          next
            case False
            with assms(1) agree_on_mono[OF a5 sub] show ?thesis by (simp add: same_outcome_def)
          qed
        qed
      qed
    qed
  qed
qed







section \<open>The disabled popularity bucket\<close>

text \<open>
  Claim C7. For every raw parameter vector whose \<^verbatim>\<open>popularity_importance\<close> is the disabled
  bucket \<^verbatim>\<open>'No'\<close>, a successful expansion yields \<^verbatim>\<open>use_popularity = False\<close>,
  \<^verbatim>\<open>weight_popularity = 0\<close> and \<^verbatim>\<open>days_popularity = 0\<close>, whatever the other raw
  parameters and the fixed parameters are.\<close>

theorem disabled_popularity_expands_to_zero:
  assumes "p ''popularity_importance'' = Some (VStr ''No'')"
    and "expand_params fp p = Inr q"
  shows "q ''use_popularity'' = Some (VBool False) \<and>
         q ''weight_popularity'' = Some (VInt 0) \<and>
         q ''days_popularity'' = Some (VInt 0)"
  using expand_params_Inr[OF assms(2)] assms(1)
  by (auto simp: tables split: if_splits)

theorem disabled_popularity_witness:
  "sample_raw ''popularity_importance'' = Some (VStr ''No'') \<and>
   (\<exists>q. expand_params count_fixed sample_raw = Inr q \<and>
        q ''use_popularity'' = Some (VBool False) \<and>
        q ''weight_popularity'' = Some (VInt 0) \<and>
        q ''days_popularity'' = Some (VInt 0))"
proof -
  have no: "sample_raw ''popularity_importance'' = Some (VStr ''No'')"
    by (simp add: sample_raw_def)
  from expand_sample_count obtain q where q: "expand_params count_fixed sample_raw = Inr q"
    by blast
  from disabled_popularity_expands_to_zero[OF no q] no q show ?thesis by blast
qed

section \<open>The override of the layer count\<close>




section \<open>The default vector\<close>

text \<open>
  Claim C9. The default parameter vector is a member of the declared search space: it has
  one entry per dimension, the dimensions are listed in the alphabetical order of their
  attribute names, and each entry lies within the inclusive bounds or among the categories of
  the dimension at its position (for instance \<^verbatim>\<open>'sum'\<close> for \<^verbatim>\<open>aggregator_hetero\<close>,
  0.266 for \<^verbatim>\<open>delta\<close>, 2500 for \<^verbatim>\<open>neg_sample_size\<close>).\<close>

theorem default_vector_in_search_space:
  "length default_parameters = length dimensions \<and>
   list_all2 in_dimension dimensions default_parameters \<and>
   map dim_name dimensions = map fst instance_attrs \<and>
   sorted (map dim_name dimensions) \<and>
   distinct (map dim_name dimensions) \<and>
   zip (map dim_name dimensions) default_parameters =
     [(''aggregator_hetero'', VStr ''sum''), (''aggregator_type'', VStr ''mean_nn''),
      (''clicks_sample'', VFloat (3 / 10)), (''delta'', VFloat (266 / 1000)),
      (''dropout'', VFloat (5 / 10)), (''embed_dim'', VStr ''Medium''),
      (''embedding_layer'', VBool False), (''lr'', VFloat (565 / 100000)),
      (''n_layers'', VInt 3), (''neg_sample_size'', VInt 2500), (''norm'', VBool True),
      (''popularity_importance'', VStr ''No''), (''purchases_sample'', VFloat (5 / 10)),
      (''use_recency'', VBool True)]"
proof -
  have 1: "length default_parameters = length dimensions"
    by (simp add: dimensions_eq instance_attrs_def default_parameters_def)
  have 2: "list_all2 in_dimension dimensions default_parameters"
    by (simp add: dimensions_eq instance_attrs_def default_parameters_def)
  have 3: "map dim_name dimensions = map fst instance_attrs"
    by (simp add: dimensions_eq instance_attrs_def)
  have 4: "sorted (map dim_name dimensions)"
    unfolding dimension_names by code_simp
  have 5: "distinct (map dim_name dimensions)"
    unfolding dimension_names by simp
  have 6: "zip (map dim_name dimensions) default_parameters =
     [(''aggregator_hetero'', VStr ''sum''), (''aggregator_type'', VStr ''mean_nn''),
      (''clicks_sample'', VFloat (3 / 10)), (''delta'', VFloat (266 / 1000)),
      (''dropout'', VFloat (5 / 10)), (''embed_dim'', VStr ''Medium''),
      (''embedding_layer'', VBool False), (''lr'', VFloat (565 / 100000)),
      (''n_layers'', VInt 3), (''neg_sample_size'', VInt 2500), (''norm'', VBool True),
      (''popularity_importance'', VStr ''No''), (''purchases_sample'', VFloat (5 / 10)),
      (''use_recency'', VBool True)]"
    unfolding dimension_names by (simp add: default_parameters_def)
  from 1 2 3 4 5 6 show ?thesis by blast
qed

section \<open>The invariant on declared aggregation values\<close>

text \<open>
  Claim C2. For every raw parameter vector whose \<^verbatim>\<open>aggregator_type\<close> is one of the declared
  categories, the expansion either stops with a \<^verbatim>\<open>KeyError\<close> of a table lookup (no call is
  made), or yields an aggregation value that ends with the edge suffix exactly when
  \<^verbatim>\<open>duplicates\<close> is \<^verbatim>\<open>'count_occurrence'\<close>; then both assertions pass and the trial goes on
  to its collaborators with the expanded parameters. No assertion can fail.\<close>

theorem declared_aggregator_satisfies_invariant:
  assumes "p ''aggregator_type'' = Some v" and "in_declared_domain ''aggregator_type'' v"
  shows "case expand_params fp p of
           Inl e \<Rightarrow> e = KeyError \<and> train co fp p = ([], Inl KeyError)
         | Inr q \<Rightarrow>
             (\<exists>a. q ''aggregator_type'' = Some (VStr a) \<and>
                  (endswith a ''_edge'' \<longleftrightarrow> duplicates fp = ''count_occurrence'') \<and>
                  (endswith a ''edge'' \<longleftrightarrow> duplicates fp = ''count_occurrence'')) \<and>
             check_aggregator fp q = Inr () \<and>
             train co fp p = build_and_run co fp q []"
proof (cases "expand_params fp p")
  case (Inl e)
  from assms aggregator_domain obtain a0 where a0: "p ''aggregator_type'' = Some (VStr a0)"
    by auto
  have "e = KeyError"
    by (rule expand_params_Inl_string[OF Inl a0])
  with Inl show ?thesis by (simp add: train_def)
next
  case (Inr q)
  from assms aggregator_domain have dom: "v = VStr ''mean'' \<or> v = VStr ''mean_nn'' \<or> v = VStr ''pool_nn''"
    by simp
  have inv: "\<exists>a. q ''aggregator_type'' = Some (VStr a) \<and>
                  (endswith a ''_edge'' \<longleftrightarrow> duplicates fp = ''count_occurrence'') \<and>
                  (endswith a ''edge'' \<longleftrightarrow> duplicates fp = ''count_occurrence'')"
  proof (cases "duplicates fp = ''count_occurrence''")
    case True
    from expand_params_count[OF Inr True] obtain a where
      "p ''aggregator_type'' = Some (VStr a)" "q ''aggregator_type'' = Some (VStr (a @ ''_edge''))"
      by blast
    with True show ?thesis by simp
  next
    case False
    from expand_params_other[OF Inr False] assms(1) have "q ''aggregator_type'' = Some v"
      by simp
    with dom False show ?thesis by (auto simp: endswith_def)
  qed
  then have chk: "check_aggregator fp q = Inr ()"
    by (auto simp: check_aggregator_def getitem_def)
  with Inr inv show ?thesis by (simp add: train_def)
qed

theorem declared_aggregator_witness:
  "sample_raw ''aggregator_type'' = Some (VStr ''mean_nn'') \<and>
   in_declared_domain ''aggregator_type'' (VStr ''mean_nn'') \<and>
   (\<exists>q a. expand_params count_fixed sample_raw = Inr q \<and>
          q ''aggregator_type'' = Some (VStr a) \<and> endswith a ''_edge'' \<and>
          check_aggregator count_fixed q = Inr ())"
proof -
  have raw: "sample_raw ''aggregator_type'' = Some (VStr ''mean_nn'')"
    by (simp add: sample_raw_def)
  have dom: "in_declared_domain ''aggregator_type'' (VStr ''mean_nn'')"
    by (simp add: aggregator_domain)
  have cnt: "duplicates count_fixed = ''count_occurrence''"
    by (simp add: count_fixed_def)
  from expand_sample_count obtain q where q: "expand_params count_fixed sample_raw = Inr q"
    by blast
  from declared_aggregator_satisfies_invariant
         [where p = sample_raw and v = "VStr ''mean_nn''" and fp = count_fixed
            and co = quiet_run, OF raw dom] q cnt
  have "(\<exists>a. q ''aggregator_type'' = Some (VStr a) \<and> endswith a ''_edge'') \<and>
        check_aggregator count_fixed q = Inr ()"
    by auto
  with raw dom q show ?thesis by blast
qed

section \<open>Incompatible aggregation values\<close>

text \<open>
  Claim C3, as stated, fails: under \<^verbatim>\<open>duplicates = 'count_occurrence'\<close> a raw aggregation
  value without the suffix (\<^verbatim>\<open>'mean_nn'\<close>, which the assertion of that mode rejects) does
  not abort the evaluation. The trial appends \<^verbatim>\<open>'_edge'\<close> to it, builds the network with
  \<^verbatim>\<open>'mean_nn_edge'\<close> and returns a recall.\<close>

theorem coercion_counterexample:
  "sample_raw ''aggregator_type'' = Some (VStr ''mean_nn'') \<and>
   check_aggregator count_fixed sample_raw = Inl AssertionError \<and>
   snd (train quiet_run count_fixed sample_raw) = Inr (20 / 100) \<and>
   fst (train quiet_run count_fixed sample_raw) ! 5 =
     ConvModel (VInt 5) (VInt 192) (VInt 384) (VBool True) (VFloat (5 / 10))
       (VStr ''mean_nn_edge'') (VStr ''cos'') (VStr ''sum'') (VBool False)"
proof -
  have 1: "sample_raw ''aggregator_type'' = Some (VStr ''mean_nn'')"
    by (simp add: sample_raw_def)
  have 2: "check_aggregator count_fixed sample_raw = Inl AssertionError"
    by (simp add: check_aggregator_def getitem_def endswith_def sample_raw_def count_fixed_def)
  from train_count_sample 1 2 show ?thesis by auto
qed

text \<open>
  Claim C3, amended. After a successful expansion, any failure of the consistency check
  ends the trial with that error before a single collaborator is called. When
  \<^verbatim>\<open>duplicates\<close> is not \<^verbatim>\<open>'count_occurrence'\<close> the aggregation value is left as it was, and
  a value ending with \<^verbatim>\<open>'edge'\<close> aborts the trial with an assertion error. When
  \<^verbatim>\<open>duplicates\<close> is \<^verbatim>\<open>'count_occurrence'\<close> the trial itself appends \<^verbatim>\<open>'_edge'\<close> to the raw
  value, so that the assertion of that mode passes.\<close>

theorem incompatible_aggregator_aborts:
  assumes "expand_params fp p = Inr q"
  shows "(\<forall>e. check_aggregator fp q = Inl e \<longrightarrow> train co fp p = ([], Inl e)) \<and>
         (duplicates fp \<noteq> ''count_occurrence'' \<longrightarrow>
            q ''aggregator_type'' = p ''aggregator_type'' \<and>
            (\<forall>a. p ''aggregator_type'' = Some (VStr a) \<and> endswith a ''edge'' \<longrightarrow>
                 train co fp p = ([], Inl AssertionError))) \<and>
         (duplicates fp = ''count_occurrence'' \<longrightarrow>
            (\<exists>a. p ''aggregator_type'' = Some (VStr a) \<and>
                 q ''aggregator_type'' = Some (VStr (a @ ''_edge''))) \<and>
            check_aggregator fp q = Inr ())"
proof -
  have a: "train co fp p = ([], Inl e)" if "check_aggregator fp q = Inl e" for e
    using that assms by (simp add: train_def)
  have b: "q ''aggregator_type'' = p ''aggregator_type''"
    if "duplicates fp \<noteq> ''count_occurrence''"
    by (rule expand_params_other[OF assms that])
  have c: "train co fp p = ([], Inl AssertionError)"
    if "duplicates fp \<noteq> ''count_occurrence''" "p ''aggregator_type'' = Some (VStr a)"
       "endswith a ''edge''" for a
  proof -
    from b[OF that(1)] that(2) have "q ''aggregator_type'' = Some (VStr a)" by simp
    with that(1,3) have "check_aggregator fp q = Inl AssertionError"
      by (simp add: check_aggregator_def getitem_def)
    then show ?thesis by (rule a)
  qed
  have d: "(\<exists>a. p ''aggregator_type'' = Some (VStr a) \<and>
                 q ''aggregator_type'' = Some (VStr (a @ ''_edge''))) \<and>
            check_aggregator fp q = Inr ()"
    if "duplicates fp = ''count_occurrence''"
  proof -
    from expand_params_count[OF assms that] obtain a where
      pa: "p ''aggregator_type'' = Some (VStr a)" and
      qa: "q ''aggregator_type'' = Some (VStr (a @ ''_edge''))"
      by blast
    from qa that have "check_aggregator fp q = Inr ()"
      by (simp add: check_aggregator_def getitem_def)
    with pa qa show ?thesis by blast
  qed
  from a b c d show ?thesis by blast
qed

theorem incompatible_aggregator_witness:
  "(\<exists>q. expand_params keep_all_fixed edge_raw = Inr q) \<and>
   edge_raw ''aggregator_type'' = Some (VStr ''mean_edge'') \<and>
   endswith ''mean_edge'' ''edge'' \<and>
   train quiet_run keep_all_fixed edge_raw = ([], Inl AssertionError)"
proof -
  from expand_edge_keep_all obtain q where q: "expand_params keep_all_fixed edge_raw = Inr q"
    by blast
  have raw: "edge_raw ''aggregator_type'' = Some (VStr ''mean_edge'')"
    by (simp add: edge_raw_def)
  have e: "endswith ''mean_edge'' ''edge''" by (simp add: endswith_def)
  have k: "duplicates keep_all_fixed \<noteq> ''count_occurrence''" by (simp add: keep_all_fixed_def)
  from incompatible_aggregator_aborts[OF q, of quiet_run] k raw e
  have "train quiet_run keep_all_fixed edge_raw = ([], Inl AssertionError)" by blast
  with q raw e show ?thesis by blast
qed

section \<open>Determinism of the expansion\<close>

text \<open>
  Claim C8. The expansion is a function of the raw parameters and of the fixed parameters:
  two runs on equal inputs give the same outcome. More precisely, of the fixed parameters it
  reads \<^verbatim>\<open>duplicates\<close> only, and two runs whose raw parameters agree on \<^verbatim>\<open>embed_dim\<close>,
  \<^verbatim>\<open>popularity_importance\<close> and \<^verbatim>\<open>aggregator_type\<close> end with the same error or with the
  same \<^verbatim>\<open>out_dim\<close>, \<^verbatim>\<open>hidden_dim\<close>, \<^verbatim>\<open>use_popularity\<close>, \<^verbatim>\<open>weight_popularity\<close>,
  \<^verbatim>\<open>days_popularity\<close> and \<^verbatim>\<open>aggregator_type\<close>.\<close>

theorem expansion_deterministic:
  assumes "duplicates fp = duplicates fp'" and "agree_on expansion_inputs p p'"
  shows "same_outcome expansion_outputs (expand_params fp p) (expand_params fp' p') \<and>
         (p = p' \<longrightarrow> expand_params fp p = expand_params fp' p')"
proof
  show "same_outcome expansion_outputs (expand_params fp p) (expand_params fp' p')"
    by (rule expand_params_agree[OF assms])
  show "p = p' \<longrightarrow> expand_params fp p = expand_params fp' p'"
    using assms(1) unfolding expand_params_def by (auto split: sum.splits)
qed

theorem expansion_deterministic_witness:
  "duplicates keep_all_fixed = duplicates partial_fixed \<and>
   agree_on expansion_inputs sample_raw (sample_raw(''n_layers'' \<mapsto> VInt 3)) \<and>
   same_outcome expansion_outputs (expand_params keep_all_fixed sample_raw)
     (expand_params partial_fixed (sample_raw(''n_layers'' \<mapsto> VInt 3))) \<and>
   expand_params keep_all_fixed sample_raw = expand_params partial_fixed sample_raw"
proof -
  have d: "duplicates keep_all_fixed = duplicates partial_fixed"
    by (simp add: keep_all_fixed_def partial_fixed_def)
  have a: "agree_on expansion_inputs sample_raw (sample_raw(''n_layers'' \<mapsto> VInt 3))"
    by (simp add: agree_on_def expansion_inputs_def)
  have b: "agree_on expansion_inputs sample_raw sample_raw"
    by (simp add: agree_on_def)
  from expansion_deterministic[OF d a] expansion_deterministic[OF d b] d a
  show ?thesis by simp
qed

section \<open>The objective is the negated recall\<close>

text \<open>
  Claim C1. For every raw parameter vector that the decorator accepts, if the trial returns
  the recall \<^verbatim>\<open>r\<close>, the fitness wrapper returns \<^verbatim>\<open>-r\<close> (after the same calls); with a
  recall of 0.20 the objective is -0.20.\<close>

theorem fitness_negates_recall:
  assumes "use_named_args dimensions x = Inr params"
    and "train co fp params = (tr, Inr r)"
  shows "fitness co (Some fp) x = (tr, Inr (- r))"
  using assms by (simp add: fitness_def)

theorem fitness_negates_recall_witness:
  "snd (fitness quiet_run (Some keep_all_fixed) default_parameters) = Inr (- (20 / 100))"
proof -
  have n: "use_named_args dimensions default_parameters =
             Inr (map_of (rev (zip (map dim_name dimensions) default_parameters)))"
    by (simp add: use_named_args_def dimensions_eq instance_attrs_def default_parameters_def)
  obtain tr where t: "train quiet_run keep_all_fixed
          (map_of (rev (zip (map dim_name dimensions) default_parameters))) = (tr, Inr (20 / 100))"
    using train_default by (metis prod.collapse)
  from fitness_negates_recall[OF n t] show ?thesis by simp
qed

section \<open>Resuming without warm-up\<close>



section \<open>The trial budget\<close>




section \<open>The seeded first trial\<close>

text \<open>
  Claim C6. On a fresh start the first trial evaluated is the default parameter vector (one
  value per declared dimension), whatever the random sampler would draw: if its evaluation
  fails the search fails with that error, and otherwise the first record carries the default
  vector and its objective. The trials that follow it are random warm-up samples, as many as
  the warm-up count of the loop, and acquisition-guided after those.\<close>

theorem fresh_start_seeds_default:
  assumes "fb \<noteq> 0"
  shows "(\<forall>e. snd (fitness co (Some fp) default_parameters) = Inl e \<longrightarrow>
              main co opt fp fb ck = Inl e) \<and>
         (\<forall>ts. main co opt fp fb ck = Inr ts \<longrightarrow>
            ts \<noteq> [] \<and> origin (hd ts) = Seeded \<and> vector (hd ts) = default_parameters \<and>
            snd (fitness co (Some fp) default_parameters) = Inr (objective (hd ts)) \<and>
            length default_parameters = length dimensions \<and>
            (\<forall>i. 1 \<le> i \<and> i < 200 \<longrightarrow>
               (i \<le> default_initial_points opt \<longrightarrow>
                  origin (ts ! i) = Warmup \<and> vector (ts ! i) = sample_random opt (take i ts)) \<and>
               (default_initial_points opt < i \<longrightarrow>
                  origin (ts ! i) = Guided \<and> vector (ts ! i) = acquire opt (take i ts))))"
proof -
  have A: "main co opt fp fb ck = Inl e"
    if "snd (fitness co (Some fp) default_parameters) = Inl e" for e
    using assms that by (rule main_fresh_failure)
  have B: "ts \<noteq> [] \<and> origin (hd ts) = Seeded \<and> vector (hd ts) = default_parameters \<and>
            snd (fitness co (Some fp) default_parameters) = Inr (objective (hd ts)) \<and>
            length default_parameters = length dimensions \<and>
            (\<forall>i. 1 \<le> i \<and> i < 200 \<longrightarrow>
               (i \<le> default_initial_points opt \<longrightarrow>
                  origin (ts ! i) = Warmup \<and> vector (ts ! i) = sample_random opt (take i ts)) \<and>
               (default_initial_points opt < i \<longrightarrow>
                  origin (ts ! i) = Guided \<and> vector (ts ! i) = acquire opt (take i ts)))"
    if m: "main co opt fp fb ck = Inr ts" for ts
  proof -
    from main_fresh_shape[OF assms m] obtain y new where
      ts: "ts = \<lparr>origin = Seeded, vector = default_parameters, objective = y\<rparr> # new" and
      y: "snd (fitness co (Some fp) default_parameters) = Inr y" and
      n: "length new = 199" and
      each: "\<forall>i<199. origin (new ! i) =
                  (if i < default_initial_points opt then Warmup else Guided) \<and>
                vector (new ! i) =
                  (if i < default_initial_points opt
                   then sample_random opt (take (Suc i) ts) else acquire opt (take (Suc i) ts))"
      by blast
    have 1: "ts \<noteq> []" using ts by simp
    have 2: "origin (hd ts) = Seeded" using ts by simp
    have 3: "vector (hd ts) = default_parameters" using ts by simp
    have 4: "snd (fitness co (Some fp) default_parameters) = Inr (objective (hd ts))"
      using ts y by simp
    have 5: "length default_parameters = length dimensions"
      by (simp add: dimensions_eq instance_attrs_def default_parameters_def)
    have 6: "(i \<le> default_initial_points opt \<longrightarrow>
                  origin (ts ! i) = Warmup \<and> vector (ts ! i) = sample_random opt (take i ts)) \<and>
               (default_initial_points opt < i \<longrightarrow>
                  origin (ts ! i) = Guided \<and> vector (ts ! i) = acquire opt (take i ts))"
      if i: "1 \<le> i \<and> i < 200" for i :: nat
    proof -
      from i obtain j where j: "i = Suc j" "j < 199" by (cases i) auto
      from ts j have nth: "ts ! i = new ! j" by simp
      from each j have "origin (new ! j) =
                  (if j < default_initial_points opt then Warmup else Guided) \<and>
                vector (new ! j) =
                  (if j < default_initial_points opt
                   then sample_random opt (take (Suc j) ts) else acquire opt (take (Suc j) ts))"
        by blast
      with j nth show ?thesis by auto
    qed
    from 1 2 3 4 5 6 show ?thesis by blast
  qed
  from A B show ?thesis by blast
qed

theorem fresh_start_witness:
  "(1::int) \<noteq> 0 \<and>
   (\<exists>ts. main quiet_run constant_optimizer keep_all_fixed 1 (Inl IndexError) = Inr ts \<and>
         hd ts = \<lparr>origin = Seeded, vector = default_parameters, objective = - (20 / 100)\<rparr> \<and>
         origin (ts ! 1) = Warmup \<and> origin (ts ! 10) = Warmup \<and> origin (ts ! 11) = Guided)"
proof -
  have nz: "(1::int) \<noteq> 0" by simp
  from fresh_total obtain ts where
    ts: "main quiet_run constant_optimizer keep_all_fixed 1 (Inl IndexError) = Inr ts"
    by blast
  note c = fresh_start_seeds_default[OF nz, of quiet_run keep_all_fixed constant_optimizer
             "Inl IndexError"]
  from c ts have h: "origin (hd ts) = Seeded" "vector (hd ts) = default_parameters"
    "Inr (objective (hd ts)) = snd (fitness quiet_run (Some keep_all_fixed) default_parameters)"
    by simp_all
  then have "objective (hd ts) = - (20 / 100)" by (simp add: fitness_default_value)
  with h have hd: "hd ts = \<lparr>origin = Seeded, vector = default_parameters,
                             objective = - (20 / 100)\<rparr>"
    by simp
  have d: "default_initial_points constant_optimizer = 10" by (simp add: constant_optimizer_def)
  from c ts d have "origin (ts ! 1) = Warmup" "origin (ts ! 10) = Warmup"
    "origin (ts ! 11) = Guided"
    by simp_all
  with nz ts hd show ?thesis by blast
qed

end
